theory Spec2Isabelle
  imports Main
begin

section \<open>Values, exceptions and call outcomes\<close>

text \<open>
  The store of \<^verbatim>\<open>src/main.ts\<close> and \<^verbatim>\<open>src/keep.ts\<close> holds an arbitrary JavaScript value.
  Function objects are compared by reference, so a function value is a reference
  \<open>Fun r\<close>; what calling it does is given by an environment (see below). Numbers are
  integers here: only \<open>0\<close> and small counters occur in the properties.
\<close>

type_synonym fref = nat

datatype jsval =
    Undefined
  | Null
  | Bool bool
  | Num int
  | Str string
  | Obj nat
  | Fun fref

text \<open>A JavaScript \<^verbatim>\<open>throw\<close> carries any value; \<open>TypeError\<close> is the one the runtime raises.\<close>

datatype error = Thrown jsval | TypeError

datatype 'a outcome = Returned 'a | Threw error

text \<open>
  An updater \<^verbatim>\<open>(s: T) => T\<close> is a pure function of the current value that may throw;
  a listener \<^verbatim>\<open>() => void\<close> is a callback that returns or throws. Both are looked up by
  reference. Listeners are callbacks that do not call back into the store whose
  notification is running.
\<close>

type_synonym updaters = "fref \<Rightarrow> jsval \<Rightarrow> error + jsval"
type_synonym callbacks = "fref \<Rightarrow> error option"

section \<open>The listener set\<close>

text \<open>
  \<^verbatim>\<open>new Set<() => void>()\<close>: a JavaScript \<open>Set\<close> holds each element once and iterates in
  insertion order; \<^verbatim>\<open>add\<close> of a present element changes nothing, \<^verbatim>\<open>delete\<close> returns
  whether the element was present.
\<close>

typedef 'a jsset = "{xs :: 'a list. distinct xs}"
  morphisms entries Abs_jsset
proof
  show "[] \<in> {xs :: 'a list. distinct xs}" by simp
qed

setup_lifting type_definition_jsset

lift_definition Set_new :: "'a jsset" is "[]"
  by simp

lift_definition Set_add :: "'a \<Rightarrow> 'a jsset \<Rightarrow> 'a jsset"
  is "\<lambda>x xs. if x \<in> set xs then xs else xs @ [x]"
  by simp

lift_definition Set_delete :: "'a \<Rightarrow> 'a jsset \<Rightarrow> 'a jsset"
  is "\<lambda>x xs. remove1 x xs"
  by simp

definition Set_has :: "'a \<Rightarrow> 'a jsset \<Rightarrow> bool" where
  "Set_has x S = (x \<in> set (entries S))"

section \<open>The store\<close>

text \<open>
  A store is the function object \<^verbatim>\<open>state\<close> together with the closure of \<^verbatim>\<open>keep\<close> it
  captures: the variable \<^verbatim>\<open>initialState\<close>, reassigned by every set, the constant
  \<^verbatim>\<open>listeners\<close>, and the properties of the function object. A property is its value and
  whether it is writable. The functions \<^verbatim>\<open>keep\<close> attaches are \<open>SubscribeFn\<close>, \<open>UseFn\<close>
  and \<open>AssignFn\<close>; any other property holds a value.
\<close>

datatype member = SubscribeFn | UseFn | AssignFn | Data jsval

record store =
  initialState :: jsval
  listeners :: "fref jsset"
  props :: "string \<Rightarrow> (member \<times> bool) option"

text \<open>
  \<^verbatim>\<open>for (const listener of listeners) listener();\<close> The result is the exception that
  ended the loop, if any, and the listeners that were invoked, in order.
\<close>

fun notify :: "callbacks \<Rightarrow> fref list \<Rightarrow> error option \<times> fref list" where
  "notify cb [] = (None, [])"
| "notify cb (l # ls) =
     (case cb l of
        Some e \<Rightarrow> (Some e, [l])
      | None \<Rightarrow> (case notify cb ls of (r, tr) \<Rightarrow> (r, l # tr)))"

text \<open>
  The branch shared by both \<^verbatim>\<open>state\<close> functions once the call is a set:
  \<^verbatim>\<open>initialState = typeof s === 'function' ? s(initialState) : s;\<close> and then the loop.
  \<^verbatim>\<open>typeof s === 'function'\<close> holds exactly of the values \<open>Fun f\<close>. When the updater
  throws, the assignment and the loop are not reached.
  The result is the outcome of the call, the listeners invoked, and the store.
\<close>

definition set_branch ::
  "updaters \<Rightarrow> callbacks \<Rightarrow> jsval \<Rightarrow> store \<Rightarrow> jsval outcome \<times> fref list \<times> store" where
  "set_branch upd cb s st =
     (case (case s of Fun f \<Rightarrow> upd f (initialState st) | _ \<Rightarrow> Inr s) of
        Inl e \<Rightarrow> (Threw e, [], st)
      | Inr v \<Rightarrow>
          (let st' = st\<lparr>initialState := v\<rparr> in
           case notify cb (entries (listeners st')) of
             (None, tr) \<Rightarrow> (Returned Undefined, tr, st')
           | (Some e, tr) \<Rightarrow> (Threw e, tr, st')))"

text \<open>
  \<^verbatim>\<open>src/main.ts\<close>: \<^verbatim>\<open>const notProvided = Symbol("notProvided")\<close> is private to the module, so
  the parameter \<^verbatim>\<open>s\<close> is either that symbol or a value of the caller.
\<close>

datatype param = notProvided | Given jsval

text \<open>
  \<^verbatim>\<open>( s : T|((s:T) => T) = notProvided as T) => ...\<close> A default initialiser is used when
  the argument is missing and also when it is \<^verbatim>\<open>undefined\<close>.
\<close>

fun main_param :: "jsval list \<Rightarrow> param" where
  "main_param [] = notProvided"
| "main_param (a # as) = (if a = Undefined then notProvided else Given a)"

text \<open>\<^verbatim>\<open>state\<close> of \<^verbatim>\<open>src/main.ts\<close>, called with the argument list \<open>args\<close>.\<close>

definition main_state ::
  "updaters \<Rightarrow> callbacks \<Rightarrow> jsval list \<Rightarrow> store \<Rightarrow> jsval outcome \<times> fref list \<times> store" where
  "main_state upd cb args st =
     (case main_param args of
        Given s \<Rightarrow> set_branch upd cb s st
      | notProvided \<Rightarrow> (Returned (initialState st), [], st))"

text \<open>
  \<^verbatim>\<open>state\<close> of \<^verbatim>\<open>src/keep.ts\<close>: \<^verbatim>\<open>function state(s?) { if (arguments.length === 1) ...\<close>
\<close>

definition keep_state ::
  "updaters \<Rightarrow> callbacks \<Rightarrow> jsval list \<Rightarrow> store \<Rightarrow> jsval outcome \<times> fref list \<times> store" where
  "keep_state upd cb args st =
     (if length args = 1 then set_branch upd cb (hd args) st
      else (Returned (initialState st), [], st))"

text \<open>
  \<^verbatim>\<open>() => listeners.delete(listener)\<close>, the function \<^verbatim>\<open>subscribe\<close> returns: it yields what
  \<^verbatim>\<open>delete\<close> yields.
\<close>

definition unsubscribe :: "fref \<Rightarrow> store \<Rightarrow> bool outcome \<times> store" where
  "unsubscribe listener st =
     (Returned (Set_has listener (listeners st)),
      st\<lparr>listeners := Set_delete listener (listeners st)\<rparr>)"

text \<open>\<^verbatim>\<open>subscribe\<close> (the same in both files): the unsubscribe function and the store.\<close>

definition subscribe :: "fref \<Rightarrow> store \<Rightarrow> (store \<Rightarrow> bool outcome \<times> store) \<times> store" where
  "subscribe listener st =
     (unsubscribe listener, st\<lparr>listeners := Set_add listener (listeners st)\<rparr>)"

section \<open>Store objects, \<^verbatim>\<open>assign\<close> and \<^verbatim>\<open>keep\<close>\<close>

text \<open>
  Stores are objects with identity: a heap maps references to stores, and \<^verbatim>\<open>keep\<close>
  allocates the next reference.
\<close>

type_synonym ref = nat

record heap =
  objs :: "ref \<Rightarrow> store option"
  fresh :: ref

text \<open>
  The properties of \<^verbatim>\<open>state\<close> when \<^verbatim>\<open>keep\<close> of \<^verbatim>\<open>src/main.ts\<close> returns it. Every function
  object owns \<^verbatim>\<open>name\<close> and \<^verbatim>\<open>length\<close>, which are not writable; \<^verbatim>\<open>subscribe\<close>, \<^verbatim>\<open>use\<close> and
  \<^verbatim>\<open>assign\<close> are created by plain assignment and are writable.
\<close>

definition main_props :: "string \<Rightarrow> (member \<times> bool) option" where
  "main_props =
     [''name'' \<mapsto> (Data (Str ''state''), False),
      ''length'' \<mapsto> (Data (Num 0), False),
      ''subscribe'' \<mapsto> (SubscribeFn, True),
      ''use'' \<mapsto> (UseFn, True),
      ''assign'' \<mapsto> (AssignFn, True)]"

text \<open>
  The properties of \<^verbatim>\<open>state\<close> in \<^verbatim>\<open>src/keep.ts\<close>, a function declaration with one
  parameter: \<^verbatim>\<open>name\<close>, \<^verbatim>\<open>length\<close>, the writable \<^verbatim>\<open>prototype\<close> of a declared function,
  and \<^verbatim>\<open>subscribe\<close>.
\<close>

definition keep_props :: "string \<Rightarrow> (member \<times> bool) option" where
  "keep_props =
     [''name'' \<mapsto> (Data (Str ''state''), False),
      ''length'' \<mapsto> (Data (Num 1), False),
      ''prototype'' \<mapsto> (Data (Obj 0), True),
      ''subscribe'' \<mapsto> (SubscribeFn, True)]"

text \<open>
  One step of \<^verbatim>\<open>Object.assign\<close>: the strict assignment \<^verbatim>\<open>target[key] = v\<close>. It throws
  a \<open>TypeError\<close> at an own property that is not writable, and at \<^verbatim>\<open>caller\<close> and
  \<^verbatim>\<open>arguments\<close>, which a function inherits as accessors whose setter throws. The key
  \<^verbatim>\<open>__proto__\<close> is an inherited accessor too: its setter creates no own property. The
  prototype it changes is not part of this model, so the model follows the code only
  for sources without the key \<^verbatim>\<open>__proto__\<close>. Any other key is created or overwritten as a
  writable property.
\<close>

definition Set_property :: "string \<Rightarrow> jsval \<Rightarrow> store \<Rightarrow> error + store" where
  "Set_property key v target =
     (case props target key of
        Some (old, False) \<Rightarrow> Inl TypeError
      | Some (old, True) \<Rightarrow> Inr (target\<lparr>props := (props target)(key \<mapsto> (Data v, True))\<rparr>)
      | None \<Rightarrow>
          if key = ''caller'' \<or> key = ''arguments'' then Inl TypeError
          else if key = ''__proto__'' then Inr target
          else Inr (target\<lparr>props := (props target)(key \<mapsto> (Data v, True))\<rparr>))"

text \<open>
  \<^verbatim>\<open>Object.assign(target, source)\<close> for a source object given by its own enumerable
  properties in order: the properties are assigned one by one, and the first
  assignment that throws ends the call, the earlier ones staying in place.
\<close>

fun Object_assign :: "store \<Rightarrow> (string \<times> jsval) list \<Rightarrow> error option \<times> store" where
  "Object_assign target [] = (None, target)"
| "Object_assign target ((key, v) # source) =
     (case Set_property key v target of
        Inl e \<Rightarrow> (Some e, target)
      | Inr target' \<Rightarrow> Object_assign target' source)"

text \<open>
  \<^verbatim>\<open>state.assign = function(this, k) { return Object.assign(this, k); }\<close> with \<^verbatim>\<open>this\<close> a
  reference to a store: the call returns that reference.
\<close>

definition assign :: "ref \<Rightarrow> (string \<times> jsval) list \<Rightarrow> heap \<Rightarrow> ref outcome \<times> heap" where
  "assign this k h =
     (case objs h this of
        None \<Rightarrow> (Threw TypeError, h)
      | Some target \<Rightarrow>
          (case Object_assign target k of
             (None, target') \<Rightarrow> (Returned this, h\<lparr>objs := (objs h)(this \<mapsto> target')\<rparr>)
           | (Some e, target') \<Rightarrow> (Threw e, h\<lparr>objs := (objs h)(this \<mapsto> target')\<rparr>)))"

text \<open>
  The store at the end of \<^verbatim>\<open>keep\<close>: the initial value, \<^verbatim>\<open>new Set()\<close>, and the properties
  of the function object; and its allocation in the heap.
\<close>

definition new_store :: "jsval \<Rightarrow> (string \<Rightarrow> (member \<times> bool) option) \<Rightarrow> store" where
  "new_store initialState0 ps = \<lparr>initialState = initialState0, listeners = Set_new, props = ps\<rparr>"

definition alloc :: "jsval \<Rightarrow> (string \<Rightarrow> (member \<times> bool) option) \<Rightarrow> heap \<Rightarrow> ref \<times> heap" where
  "alloc initialState0 ps h =
     (fresh h,
      h\<lparr>objs := (objs h)(fresh h \<mapsto> new_store initialState0 ps),
        fresh := Suc (fresh h)\<rparr>)"

text \<open>
  \<^verbatim>\<open>keep\<close> of \<^verbatim>\<open>src/main.ts\<close>. The optional second argument \<^verbatim>\<open>k\<close> is \<open>None\<close> when it is
  not given and \<open>Some m\<close> for an object with the own enumerable properties \<open>m\<close> (an
  object is truthy, so \<^verbatim>\<open>if (k)\<close> is taken): \<^verbatim>\<open>if (k) return state.assign(k); return state;\<close>
\<close>

definition main_keep ::
  "jsval \<Rightarrow> (string \<times> jsval) list option \<Rightarrow> heap \<Rightarrow> ref outcome \<times> heap" where
  "main_keep initialState0 k h =
     (case alloc initialState0 main_props h of
        (state, h') \<Rightarrow>
          (case k of
             Some m \<Rightarrow> assign state m h'
           | None \<Rightarrow> (Returned state, h')))"

text \<open>
  \<^verbatim>\<open>keep\<close> of \<^verbatim>\<open>src/keep.ts\<close>: \<^verbatim>\<open>export const keep = <T>( initialState: T ) => { ... }\<close>. It
  has one parameter and reads no further argument.
\<close>

definition keep_keep :: "jsval \<Rightarrow> heap \<Rightarrow> ref \<times> heap" where
  "keep_keep initialState0 h = alloc initialState0 keep_props h"

text \<open>
  The keys at which an assignment to a store can throw or create no property, and the
  property of a store that nothing but \<^verbatim>\<open>name\<close> and \<^verbatim>\<open>length\<close> is read-only: \<^verbatim>\<open>keep\<close>
  creates every store so, and \<^verbatim>\<open>assign\<close> only creates writable properties.
\<close>

definition reserved :: "string set" where
  "reserved = {''name'', ''length'', ''caller'', ''arguments'', ''__proto__''}"

definition plain_props :: "store \<Rightarrow> bool" where
  "plain_props st \<longleftrightarrow>
     (\<forall>key old. props st key = Some (old, False) \<longrightarrow> key = ''name'' \<or> key = ''length'')"

section \<open>\<^verbatim>\<open>usePeek\<close>\<close>

text \<open>
  An extension \<^verbatim>\<open>(s: KeepType<T>) => L\<close> receives the bare store and returns an object,
  given by its own enumerable properties.
\<close>

type_synonym extension = "ref \<Rightarrow> (string \<times> jsval) list"

text \<open>
  \<^verbatim>\<open>init\<close> of \<^verbatim>\<open>src/usePeek.ts\<close>, which imports \<^verbatim>\<open>keep\<close> from \<^verbatim>\<open>./keep\<close>:
  \<^verbatim>\<open>const storeInstance = keep(initial_value, extension); return [storeInstance(), storeInstance];\<close>
  The call passes \<^verbatim>\<open>extension\<close> as a second argument to the one-parameter \<^verbatim>\<open>keep\<close>.
  \<^verbatim>\<open>storeInstance()\<close> is \<^verbatim>\<open>state\<close> of \<^verbatim>\<open>src/keep.ts\<close> with no argument.
\<close>

definition init ::
  "updaters \<Rightarrow> callbacks \<Rightarrow> jsval \<Rightarrow> extension \<Rightarrow> heap \<Rightarrow> (jsval outcome \<times> ref) \<times> heap" where
  "init upd cb initial_value extension h =
     (case keep_keep initial_value h of
        (storeInstance, h') \<Rightarrow>
          (case objs h' storeInstance of
             None \<Rightarrow> ((Threw TypeError, storeInstance), h')
           | Some st \<Rightarrow>
               (case keep_state upd cb [] st of
                  (r, tr, st') \<Rightarrow>
                    ((r, storeInstance), h'\<lparr>objs := (objs h')(storeInstance \<mapsto> st')\<rparr>))))"

text \<open>
  \<^verbatim>\<open>usePeek\<close>: \<^verbatim>\<open>useReducer(reducer, null, init(initial_value, extension))\<close> runs the
  initialiser on the first render of the instance (the hook state is \<open>None\<close>); the hook
  returns \<^verbatim>\<open>[state[0], state[1]]\<close>. On a later render the hook state is what the reducer
  last left there; the reducer and the effect that subscribes the dispatch are not
  modelled, so only the first render is the code's.
\<close>

definition usePeek ::
  "updaters \<Rightarrow> callbacks \<Rightarrow> jsval \<Rightarrow> extension \<Rightarrow> (jsval outcome \<times> ref) option \<Rightarrow> heap
     \<Rightarrow> (jsval outcome \<times> ref) \<times> (jsval outcome \<times> ref) option \<times> heap" where
  "usePeek upd cb initial_value extension hook h =
     (case hook of
        None \<Rightarrow>
          (case init upd cb initial_value extension h of
             (state, h') \<Rightarrow> ((fst state, snd state), Some state, h'))
      | Some state \<Rightarrow> ((fst state, snd state), Some state, h))"

section \<open>\<^verbatim>\<open>useKeeper\<close>\<close>

text \<open>
  \<^verbatim>\<open>useRef<T | typeof UNINITIALIZED>(UNINITIALIZED)\<close>: the symbol is private to the
  module, so the cell holds either it or a value of the generator.
\<close>

datatype cell = UNINITIALIZED | Current jsval

text \<open>
  A generator \<^verbatim>\<open>() => T\<close> may have an effect on the world around it (of type \<open>'w\<close>) and
  may throw. A component instance is its ref cell, that world, and the number of times
  the generator has been called.
\<close>

type_synonym 'w generator = "'w \<Rightarrow> (error + jsval) \<times> 'w"

record 'w component =
  keeper :: cell
  world :: 'w
  generated :: nat

definition mount :: "'w \<Rightarrow> 'w component" where
  "mount w = \<lparr>keeper = UNINITIALIZED, world = w, generated = 0\<rparr>"

text \<open>
  \<^verbatim>\<open>if (keeper.current === UNINITIALIZED) { keeper.current = keeperGen(); } return keeper.current;\<close>
  When the generator throws, the assignment is not reached.
\<close>

definition useKeeper :: "'w generator \<Rightarrow> 'w component \<Rightarrow> jsval outcome \<times> 'w component" where
  "useKeeper keeperGen i =
     (case keeper i of
        UNINITIALIZED \<Rightarrow>
          (case keeperGen (world i) of
             (Inl e, w') \<Rightarrow> (Threw e, i\<lparr>world := w', generated := Suc (generated i)\<rparr>)
           | (Inr v, w') \<Rightarrow>
               (Returned v, i\<lparr>keeper := Current v, world := w', generated := Suc (generated i)\<rparr>))
      | Current v \<Rightarrow> (Returned v, i))"

text \<open>\<open>n\<close> successive renders of one instance: the results in order, and the instance.\<close>

fun renders :: "'w generator \<Rightarrow> nat \<Rightarrow> 'w component \<Rightarrow> jsval outcome list \<times> 'w component" where
  "renders keeperGen 0 i = ([], i)"
| "renders keeperGen (Suc n) i =
     (case useKeeper keeperGen i of
        (r, i') \<Rightarrow> (case renders keeperGen n i' of (rs, i'') \<Rightarrow> (r # rs, i'')))"

section \<open>Sample callers\<close>

text \<open>
  Concrete callers for the examples below: the updater \<open>0\<close> is \<^verbatim>\<open>c => c + 1\<close>, the
  updater \<open>1\<close> throws the string \<^verbatim>\<open>"boom"\<close>, the updater \<open>2\<close> is \<^verbatim>\<open>() => undefined\<close>, every
  other one returns its argument;
  \<open>quiet\<close> listeners all return; under \<open>failing l\<close> the listener \<open>l\<close> throws.
\<close>

definition sample_updaters :: updaters where
  "sample_updaters f v =
     (if f = 0 then (case v of Num n \<Rightarrow> Inr (Num (n + 1)) | _ \<Rightarrow> Inr v)
      else if f = 1 then Inl (Thrown (Str ''boom''))
      else if f = 2 then Inr Undefined
      else Inr v)"

definition quiet :: callbacks where
  "quiet l = None"

definition failing :: "fref \<Rightarrow> callbacks" where
  "failing l l' = (if l' = l then Some (Thrown (Str ''boom'')) else None)"

text \<open>
  A store holding \<open>3\<close> on which the listener \<open>7\<close> was subscribed, then \<open>5\<close>, then \<open>7\<close>
  again.
\<close>

definition sample_store :: store where
  "sample_store =
     snd (subscribe 7 (snd (subscribe 5 (snd (subscribe 7 (new_store (Num 3) main_props))))))"

text \<open>A generator that counts its calls in the world around it and returns \<^verbatim>\<open>undefined\<close>.\<close>

definition counting_generator :: "nat generator" where
  "counting_generator c = (Inr Undefined, Suc c)"

definition empty_heap :: heap where
  "empty_heap = \<lparr>objs = Map.empty, fresh = 0\<rparr>"

text \<open>
  The heap after \<^verbatim>\<open>keep(0)\<close>, whose store has the reference \<open>0\<close>, and the methods
  \<^verbatim>\<open>{ increment: ..., reset: ... }\<close>.
\<close>

definition counter_heap :: heap where
  "counter_heap = snd (main_keep (Num 0) None empty_heap)"

definition counter_methods :: "(string \<times> jsval) list" where
  "counter_methods = [(''increment'', Fun 0), (''reset'', Fun 2)]"

text \<open>The extension \<^verbatim>\<open>store => ({ increment: ... })\<close>.\<close>

definition counter_extension :: extension where
  "counter_extension s = [(''increment'', Fun 0)]"

section \<open>Facts about the listener set and the notification loop\<close>

lemma entries_distinct: "distinct (entries S)"
  using entries [of S] by simp

lemmas jsset_simps = Set_new.rep_eq Set_add.rep_eq Set_delete.rep_eq Set_has_def

lemma count_list_distinct: "distinct xs \<Longrightarrow> count_list xs x = (if x \<in> set xs then 1 else 0)"
  by (induction xs) auto

lemma notify_trace_prefix: "\<exists>rest. ls = snd (notify cb ls) @ rest"
  by (induction ls) (auto split: option.splits prod.splits)

lemma notify_returns: "notify cb ls = (None, tr) \<Longrightarrow> tr = ls"
  by (induction ls arbitrary: tr) (auto split: option.splits prod.splits)

lemma notify_no_throw: "\<forall>l \<in> set ls. cb l = None \<Longrightarrow> notify cb ls = (None, ls)"
  by (induction ls) auto

lemma notify_quiet: "notify quiet ls = (None, ls)"
  by (simp add: notify_no_throw quiet_def)

lemma sample_store_entries: "entries (listeners sample_store) = [7, 5]"
  by (simp add: sample_store_def subscribe_def new_store_def jsset_simps)

lemma sample_store_value: "initialState sample_store = Num 3"
  by (simp add: sample_store_def subscribe_def new_store_def)

lemma sample_store_plus9:
  "entries (listeners (snd (subscribe 9 sample_store))) = [7, 5, 9]"
  by (simp add: subscribe_def jsset_simps sample_store_entries)

section \<open>Facts about the set branch and the two \<^verbatim>\<open>state\<close> functions\<close>

lemma set_branch_returns:
  assumes "set_branch upd cb s st = (Returned r, tr, st')"
  shows "tr = entries (listeners st) \<and> listeners st' = listeners st \<and> props st' = props st
         \<and> r = Undefined"
  using assms
  by (auto simp: set_branch_def Let_def split: sum.splits prod.splits option.splits jsval.splits
      dest: notify_returns)

lemma set_branch_commits_literal:
  "\<forall>f. s \<noteq> Fun f \<Longrightarrow> initialState (snd (snd (set_branch upd cb s st))) = s"
  by (cases s) (auto simp: set_branch_def Let_def split: prod.splits option.splits)

lemma set_branch_commits_updater:
  "upd f (initialState st) = Inr v \<Longrightarrow>
   initialState (snd (snd (set_branch upd cb (Fun f) st))) = v"
  by (auto simp: set_branch_def Let_def split: prod.splits option.splits)

lemma main_state_set: "s \<noteq> Undefined \<Longrightarrow> main_state upd cb [s] st = set_branch upd cb s st"
  by (simp add: main_state_def)

lemma main_state_get: "main_state upd cb [] st = (Returned (initialState st), [], st)"
  by (simp add: main_state_def)

lemma keep_state_set: "keep_state upd cb [s] st = set_branch upd cb s st"
  by (simp add: keep_state_def)

lemma keep_state_get: "keep_state upd cb [] st = (Returned (initialState st), [], st)"
  by (simp add: keep_state_def)

lemma notify_trace_subset: "set (snd (notify cb ls)) \<subseteq> set ls"
  by (induction ls) (auto split: option.splits prod.splits)

lemma set_branch_trace_subset:
  "set (fst (snd (set_branch upd cb s st))) \<subseteq> set (entries (listeners st))"
proof (cases "case s of Fun f \<Rightarrow> upd f (initialState st) | _ \<Rightarrow> Inr s")
  case (Inl e)
  then show ?thesis by (simp add: set_branch_def)
next
  case (Inr v)
  obtain r tr where n: "notify cb (entries (listeners st)) = (r, tr)"
    by (cases "notify cb (entries (listeners st))")
  with notify_trace_subset [of cb "entries (listeners st)"]
  have "set tr \<subseteq> set (entries (listeners st))" by simp
  with Inr n show ?thesis
    by (cases r) (simp_all add: set_branch_def)
qed

lemma main_state_trace_subset:
  "set (fst (snd (main_state upd cb args st))) \<subseteq> set (entries (listeners st))"
  by (cases "main_param args") (simp_all add: main_state_def set_branch_trace_subset)

section \<open>Facts about \<^verbatim>\<open>subscribe\<close> and the function it returns\<close>

lemma unsubscribe_entries:
  "entries (listeners (snd (unsubscribe L x))) = remove1 L (entries (listeners x))"
  by (simp add: unsubscribe_def jsset_simps)

lemma unsubscribe_absent:
  assumes "\<not> Set_has L (listeners x)"
  shows "unsubscribe L x = (Returned False, x)"
proof -
  have "entries (Set_delete L (listeners x)) = entries (listeners x)"
    using assms by (simp add: jsset_simps remove1_idem)
  then have "Set_delete L (listeners x) = listeners x"
    by (simp add: entries_inject)
  with assms show ?thesis
    by (simp add: unsubscribe_def)
qed

lemma unsubscribe_removes: "\<not> Set_has L (listeners (snd (unsubscribe L x)))"
  using entries_distinct [of "listeners x"]
  by (simp add: unsubscribe_def jsset_simps)

lemma subscribe_present:
  assumes "Set_has L (listeners x)"
  shows "snd (subscribe L x) = x"
proof -
  have "entries (Set_add L (listeners x)) = entries (listeners x)"
    using assms by (simp add: jsset_simps)
  then have "Set_add L (listeners x) = listeners x"
    by (simp add: entries_inject)
  then show ?thesis
    by (simp add: subscribe_def)
qed

lemma subscribe_adds: "Set_has L (listeners (snd (subscribe L x)))"
  by (simp add: subscribe_def jsset_simps)

lemma count_entries: "count_list (entries S) l = (if Set_has l S then 1 else 0)"
  by (simp add: count_list_distinct entries_distinct Set_has_def)

lemma main_state_returns_trace:
  assumes "main_state upd cb [s] st = (Returned r, tr, st')" and "s \<noteq> Undefined"
  shows "tr = entries (listeners st)"
  using assms by (simp add: main_state_set set_branch_returns)

lemma unsubscribe_subscribe:
  assumes "\<not> Set_has L (listeners x)"
  shows "snd (unsubscribe L (snd (subscribe L x))) = x"
proof -
  have "entries (Set_delete L (Set_add L (listeners x))) = entries (listeners x)"
    using assms by (simp add: jsset_simps remove1_append)
  then have "Set_delete L (Set_add L (listeners x)) = listeners x"
    by (simp add: entries_inject)
  then show ?thesis
    by (simp add: unsubscribe_def subscribe_def)
qed

section \<open>Facts about \<^verbatim>\<open>useKeeper\<close>\<close>

lemma useKeeper_current: "keeper i = Current v \<Longrightarrow> useKeeper keeperGen i = (Returned v, i)"
  by (simp add: useKeeper_def)

lemma renders_current:
  "keeper i = Current v \<Longrightarrow> renders keeperGen n i = (replicate n (Returned v), i)"
  by (induction n) (simp_all add: useKeeper_current)

lemma useKeeper_first:
  "keeperGen w = (Inr v, w') \<Longrightarrow>
   useKeeper keeperGen (mount w) = (Returned v, \<lparr>keeper = Current v, world = w', generated = 1\<rparr>)"
  by (simp add: useKeeper_def mount_def)

section \<open>Facts about \<^verbatim>\<open>Object.assign\<close>, \<^verbatim>\<open>assign\<close> and \<^verbatim>\<open>keep\<close>\<close>

lemma plain_props_main: "plain_props (new_store v main_props)"
  by (auto simp: plain_props_def new_store_def main_props_def split: if_splits)

lemma Set_property_plain:
  assumes "plain_props t" and "key \<notin> reserved"
  shows "Set_property key v t = Inr (t\<lparr>props := (props t)(key \<mapsto> (Data v, True))\<rparr>)"
proof (cases "props t key")
  case None
  with assms(2) show ?thesis
    by (simp add: Set_property_def reserved_def)
next
  case (Some p)
  obtain old w where p: "p = (old, w)"
    by (cases p)
  have "w"
  proof (rule ccontr)
    assume "\<not> w"
    with Some p assms(1) have "key = ''name'' \<or> key = ''length''"
      by (simp add: plain_props_def)
    with assms(2) show False
      by (auto simp: reserved_def)
  qed
  with Some p show ?thesis
    by (simp add: Set_property_def)
qed

lemma plain_props_update:
  "plain_props t \<Longrightarrow> plain_props (t\<lparr>props := (props t)(key \<mapsto> (Data v, True))\<rparr>)"
  by (simp add: plain_props_def)

lemma Object_assign_plain:
  assumes "plain_props t" and "distinct (map fst m)" and "fst ` set m \<inter> reserved = {}"
  shows "\<exists>t'. Object_assign t m = (None, t')
           \<and> (\<forall>(key, v) \<in> set m. props t' key = Some (Data v, True))
           \<and> (\<forall>key. key \<notin> fst ` set m \<longrightarrow> props t' key = props t key)
           \<and> initialState t' = initialState t \<and> listeners t' = listeners t
           \<and> plain_props t'"
  using assms
proof (induction m arbitrary: t)
  case Nil
  then show ?case by simp
next
  case (Cons kv m)
  obtain key v where kv: "kv = (key, v)"
    by (cases kv)
  let ?t1 = "t\<lparr>props := (props t)(key \<mapsto> (Data v, True))\<rparr>"
  from Cons.prems kv have key: "key \<notin> reserved" and fresh: "key \<notin> fst ` set m"
    and d: "distinct (map fst m)" and r: "fst ` set m \<inter> reserved = {}"
    by auto
  from Cons.prems(1) key have step: "Set_property key v t = Inr ?t1"
    by (rule Set_property_plain)
  from Cons.prems(1) have "plain_props ?t1"
    by (rule plain_props_update)
  from Cons.IH [OF this d r] obtain t' where
    run: "Object_assign ?t1 m = (None, t')"
    and there: "\<forall>(key, v) \<in> set m. props t' key = Some (Data v, True)"
    and rest: "\<forall>k. k \<notin> fst ` set m \<longrightarrow> props t' k = props ?t1 k"
    and same: "initialState t' = initialState ?t1" "listeners t' = listeners ?t1"
    and plain: "plain_props t'"
    by blast
  from step run kv have "Object_assign t (kv # m) = (None, t')"
    by simp
  moreover from rest fresh have "props t' key = Some (Data v, True)"
    by simp
  moreover from rest have "\<forall>k. k \<notin> fst ` set (kv # m) \<longrightarrow> props t' k = props t k"
    by (simp add: kv)
  ultimately show ?case
    using there same plain kv by auto
qed

lemma main_keep_None:
  "main_keep v None h =
     (Returned (fresh h),
      h\<lparr>objs := (objs h)(fresh h \<mapsto> new_store v main_props), fresh := Suc (fresh h)\<rparr>)"
  by (simp add: main_keep_def alloc_def)

lemma main_keep_Some:
  "main_keep v (Some m) h = assign (fresh h) m (snd (main_keep v None h))"
  by (simp add: main_keep_def alloc_def)

section \<open>What a set commits, and \<^verbatim>\<open>init\<close>\<close>

lemma main_state_literal_set:
  assumes "s \<noteq> Undefined" and "\<forall>f. s \<noteq> Fun f"
  shows "initialState (snd (snd (main_state upd cb [s] st))) = s"
  using assms by (simp add: main_state_set set_branch_commits_literal)

lemma keep_state_literal_set:
  assumes "\<forall>f. s \<noteq> Fun f"
  shows "initialState (snd (snd (keep_state upd cb [s] st))) = s"
  using assms by (simp add: keep_state_set set_branch_commits_literal)

lemma main_state_updater_set:
  assumes "upd f (initialState st) = Inr v"
  shows "initialState (snd (snd (main_state upd cb [Fun f] st))) = v"
  using assms by (simp add: main_state_set set_branch_commits_updater)

lemma main_keep_get:
  "main_keep v None h = (Returned r, h') \<Longrightarrow>
   \<exists>st. objs h' r = Some st \<and> main_state upd cb [] st = (Returned v, [], st)"
  by (auto simp: main_keep_None main_state_get new_store_def)

lemma set_branch_no_throw_notifies:
  assumes "\<forall>l. cb l = None" and "\<forall>f. s \<noteq> Fun f"
  shows "set_branch upd cb s st
         = (Returned Undefined, entries (listeners st), st\<lparr>initialState := s\<rparr>)"
  using assms by (cases s) (simp_all add: set_branch_def notify_no_throw)


lemma init_ignores_extension:
  "init upd cb initial_value extension h = init upd cb initial_value extension' h"
  by (simp add: init_def)

lemma init_result:
  "init upd cb v extension h =
     ((Returned v, fresh h),
      h\<lparr>objs := (objs h)(fresh h \<mapsto> new_store v keep_props), fresh := Suc (fresh h)\<rparr>)"
  by (simp add: init_def keep_keep_def alloc_def keep_state_get new_store_def)

text \<open>
  A listener that throws ends the loop: the value is committed, the listeners after it
  are not invoked, and the exception leaves the call.
\<close>

lemma listener_throw_aborts:
  "main_state sample_updaters (failing 7) [Num 1] sample_store
     = (Threw (Thrown (Str ''boom'')), [7], sample_store\<lparr>initialState := Num 1\<rparr>)"
  by (simp add: main_state_def set_branch_def sample_store_entries failing_def)

section \<open>Atomic failure of a set\<close>

text \<open>
  Claim C3. When the updater \<open>f\<close> throws at the current value, the call \<open>s(f)\<close> ends with
  that exception, the store is exactly as before (so a get still returns the old value),
  and no listener has been invoked.
\<close>

theorem updater_throws_atomic:
  assumes "upd f (initialState st) = Inl e"
  shows "main_state upd cb [Fun f] st = (Threw e, [], st)
       \<and> fst (main_state upd cb [] st) = Returned (initialState st)"
  using assms by (simp add: main_state_def set_branch_def)

theorem updater_throws_atomic_witness:
  "main_state sample_updaters quiet [Fun 1] (snd (subscribe 5 (new_store (Num 3) main_props)))
     = (Threw (Thrown (Str ''boom'')), [], snd (subscribe 5 (new_store (Num 3) main_props)))
   \<and> fst (main_state sample_updaters quiet [] (snd (subscribe 5 (new_store (Num 3) main_props))))
     = Returned (Num 3)"
  using updater_throws_atomic
    [of sample_updaters 1 "snd (subscribe 5 (new_store (Num 3) main_props))"
        "Thrown (Str ''boom'')" quiet]
  by (simp add: sample_updaters_def subscribe_def new_store_def)

section \<open>Notification by a call with an argument other than \<^verbatim>\<open>undefined\<close>\<close>

text \<open>
  When a call \<^verbatim>\<open>s(v)\<close> of \<^verbatim>\<open>src/main.ts\<close> with \<open>v\<close> other than \<^verbatim>\<open>undefined\<close> returns normally,
  the listeners it invoked are exactly the entries of the listener set, in order: every
  subscribed listener was invoked once, none twice, and nothing else was invoked. The
  invocations are part of the call.
\<close>

lemma notification_complete:
  assumes "main_state upd cb [s] st = (Returned r, tr, st')" and "s \<noteq> Undefined"
  shows "tr = entries (listeners st) \<and>
         (\<forall>l. count_list tr l = (if Set_has l (listeners st) then 1 else 0))"
  using main_state_returns_trace [OF assms] by (simp add: count_entries)

lemma notification_complete_example:
  "main_state sample_updaters quiet [Fun 0] sample_store
     = (Returned Undefined, [7, 5], sample_store\<lparr>initialState := Num 4\<rparr>)
   \<and> Fun 0 \<noteq> Undefined
   \<and> [7, 5] = entries (listeners sample_store)
   \<and> (\<forall>l. count_list [7, 5] l = (if Set_has l (listeners sample_store) then 1 else 0))"
proof -
  have run: "main_state sample_updaters quiet [Fun 0] sample_store
     = (Returned Undefined, [7, 5], sample_store\<lparr>initialState := Num 4\<rparr>)"
    by (simp add: main_state_def set_branch_def notify_quiet sample_updaters_def
        sample_store_entries sample_store_value)
  have "Fun 0 \<noteq> Undefined"
    by simp
  from notification_complete [OF run this] run show ?thesis
    by blast
qed

section \<open>Unsubscribing\<close>

text \<open>
  Once the function \<^verbatim>\<open>subscribe\<close> returned for \<open>L\<close> has run, no call of the store invokes
  \<open>L\<close>, whatever its arguments and however it ends.
\<close>

lemma unsubscribed_never_invoked:
  "L \<notin> set (fst (snd (main_state upd cb args (snd (fst (subscribe L st) x)))))"
proof -
  have "\<not> Set_has L (listeners (snd (unsubscribe L x)))"
    by (rule unsubscribe_removes)
  then show ?thesis
    using main_state_trace_subset [of upd cb args "snd (unsubscribe L x)"]
    by (auto simp: Set_has_def subscribe_def)
qed

text \<open>
  Let \<open>unsub\<close> be the function \<^verbatim>\<open>subscribe\<close> returned for the listener \<open>L\<close>, and let it be
  called on the store in any later state \<open>x\<close>. A call \<^verbatim>\<open>s(v)\<close> of \<^verbatim>\<open>src/main.ts\<close> with \<open>v\<close>
  other than \<^verbatim>\<open>undefined\<close> that then returns normally has not invoked \<open>L\<close> and has invoked
  every other listener of \<open>x\<close> once. The first call of \<open>unsub\<close> returns, and a further call
  returns \<^verbatim>\<open>false\<close> and leaves the store, and with it every other listener, as it is.
\<close>

lemma unsubscribe_correct:
  assumes "unsub = fst (subscribe L st)"
    and "x' = snd (unsub x)"
    and "main_state upd cb [s] x' = (Returned r, tr, st')"
    and "s \<noteq> Undefined"
  shows "L \<notin> set tr
       \<and> (\<forall>l. l \<noteq> L \<and> Set_has l (listeners x) \<longrightarrow> count_list tr l = 1)
       \<and> (\<exists>b. unsub x = (Returned b, x'))
       \<and> unsub x' = (Returned False, x')"
proof -
  from assms(1) have unsub: "unsub = unsubscribe L"
    by (simp add: subscribe_def)
  with assms(2) have x': "x' = snd (unsubscribe L x)"
    by simp
  then have gone: "\<not> Set_has L (listeners x')"
    by (simp add: unsubscribe_removes)
  from assms(3,4) have tr: "tr = entries (listeners x')"
    by (rule main_state_returns_trace)
  with gone have "L \<notin> set tr"
    by (simp add: Set_has_def)
  moreover have "count_list tr l = 1" if "l \<noteq> L" and "Set_has l (listeners x)" for l
  proof -
    from that have "Set_has l (listeners x')"
      by (simp add: x' unsubscribe_entries Set_has_def)
    with tr show ?thesis
      by (simp add: count_entries)
  qed
  moreover have "\<exists>b. unsub x = (Returned b, x')"
    using unsub x' by (simp add: unsubscribe_def)
  moreover have "unsub x' = (Returned False, x')"
    using unsub gone by (simp add: unsubscribe_absent)
  ultimately show ?thesis
    by blast
qed

lemma unsubscribe_correct_example:
  "main_state sample_updaters quiet [Num 0]
      (snd (fst (subscribe 9 sample_store) (snd (subscribe 9 sample_store))))
     = (Returned Undefined, [7, 5], sample_store\<lparr>initialState := Num 0\<rparr>)
   \<and> Num 0 \<noteq> Undefined
   \<and> Set_has 7 (listeners (snd (subscribe 9 sample_store)))
   \<and> (9::fref) \<notin> set [7, 5]
   \<and> count_list [7, 5::fref] 7 = 1
   \<and> fst (subscribe 9 sample_store) sample_store = (Returned False, sample_store)"
proof -
  have absent: "\<not> Set_has 9 (listeners sample_store)"
    by (simp add: Set_has_def sample_store_entries)
  have x': "sample_store = snd (fst (subscribe 9 sample_store) (snd (subscribe 9 sample_store)))"
    using unsubscribe_subscribe [OF absent] by (simp add: subscribe_def)
  have run: "main_state sample_updaters quiet [Num 0] sample_store
     = (Returned Undefined, [7, 5], sample_store\<lparr>initialState := Num 0\<rparr>)"
    by (simp add: main_state_def set_branch_def notify_quiet sample_store_entries)
  have seven: "Set_has 7 (listeners (snd (subscribe 9 sample_store)))"
    by (simp add: subscribe_def jsset_simps sample_store_entries)
  have "Num 0 \<noteq> Undefined"
    by simp
  from unsubscribe_correct
    [where L = 9 and st = sample_store and x = "snd (subscribe 9 sample_store)",
      OF refl x' run this]
  have "9 \<notin> set [7, 5::fref]"
    and "(7::fref) \<noteq> 9 \<and> Set_has 7 (listeners (snd (subscribe 9 sample_store)))
           \<longrightarrow> count_list [7, 5::fref] 7 = 1"
    and "fst (subscribe 9 sample_store) sample_store = (Returned False, sample_store)"
    by blast+
  with seven run x' show ?thesis
    by simp
qed

section \<open>Subscribing twice\<close>

text \<open>
  Subscribing \<open>L\<close> a second time changes nothing, so a call \<^verbatim>\<open>s(v)\<close> of \<^verbatim>\<open>src/main.ts\<close> with
  \<open>v\<close> other than \<^verbatim>\<open>undefined\<close> that returns normally invokes \<open>L\<close> once; and either of the
  two returned functions removes \<open>L\<close>, after which no call of the store invokes it.
\<close>

lemma subscribe_twice_single_registration:
  assumes "(unsub_a, st_a) = subscribe L st" and "(unsub_b, st_b) = subscribe L st_a"
  shows "st_b = st_a
       \<and> (main_state upd cb [s] st_b = (Returned r, tr, st') \<and> s \<noteq> Undefined
            \<longrightarrow> count_list tr L = 1)
       \<and> (\<forall>u \<in> {unsub_a, unsub_b}. \<not> Set_has L (listeners (snd (u st_b)))
            \<and> L \<notin> set (fst (snd (main_state upd' cb' args (snd (u st_b))))))"
proof -
  from assms(1) have st_a: "st_a = snd (subscribe L st)" and unsub_a: "unsub_a = unsubscribe L"
    by (simp_all add: subscribe_def)
  from assms(2) have st_b: "st_b = snd (subscribe L st_a)" and unsub_b: "unsub_b = unsubscribe L"
    by (simp_all add: subscribe_def)
  have has: "Set_has L (listeners st_a)"
    by (simp add: st_a subscribe_adds)
  then have same: "st_b = st_a"
    by (simp add: st_b subscribe_present)
  have once: "count_list tr L = 1"
    if "main_state upd cb [s] st_b = (Returned r, tr, st')" and "s \<noteq> Undefined"
    using main_state_returns_trace [OF that] has same by (simp add: count_entries)
  have gone: "\<not> Set_has L (listeners (snd (unsubscribe L st_b)))"
    by (rule unsubscribe_removes)
  then have "L \<notin> set (fst (snd (main_state upd' cb' args (snd (unsubscribe L st_b)))))"
    using main_state_trace_subset [of upd' cb' args "snd (unsubscribe L st_b)"]
    by (auto simp: Set_has_def)
  with gone same once unsub_a unsub_b show ?thesis
    by simp
qed

lemma subscribe_twice_single_registration_example:
  "snd (subscribe 9 (snd (subscribe 9 sample_store))) = snd (subscribe 9 sample_store)
   \<and> main_state sample_updaters quiet [Bool False] (snd (subscribe 9 (snd (subscribe 9 sample_store))))
       = (Returned Undefined, [7, 5, 9], snd (subscribe 9 sample_store)\<lparr>initialState := Bool False\<rparr>)
   \<and> count_list [7, 5, 9::fref] 9 = 1
   \<and> \<not> Set_has 9 (listeners (snd (fst (subscribe 9 sample_store)
           (snd (subscribe 9 (snd (subscribe 9 sample_store)))))))
   \<and> fst (snd (main_state sample_updaters quiet [Num 1]
        (snd (fst (subscribe 9 (snd (subscribe 9 sample_store)))
           (snd (subscribe 9 (snd (subscribe 9 sample_store)))))))) = [7, 5]"
proof -
  let ?st1 = "snd (subscribe 9 sample_store)"
  let ?st2 = "snd (subscribe 9 ?st1)"
  let ?u1 = "fst (subscribe 9 sample_store)"
  let ?u2 = "fst (subscribe 9 ?st1)"
  note inst = subscribe_twice_single_registration
    [where L = 9 and st = sample_store and unsub_a = ?u1 and st_a = ?st1
       and unsub_b = ?u2 and st_b = ?st2
       and upd = sample_updaters and cb = quiet and s = "Bool False" and r = Undefined
       and tr = "[7, 5, 9]" and st' = "?st1\<lparr>initialState := Bool False\<rparr>"
       and upd' = sample_updaters and cb' = quiet and args = "[Num 1]",
     OF prod.collapse prod.collapse]
  from inst have same: "?st2 = ?st1"
    by blast
  have run: "main_state sample_updaters quiet [Bool False] ?st2
       = (Returned Undefined, [7, 5, 9], ?st1\<lparr>initialState := Bool False\<rparr>)"
    by (simp add: same main_state_def set_branch_def notify_quiet sample_store_plus9)
  from inst run have once: "count_list [7, 5, 9::fref] 9 = 1"
    by blast
  from inst have gone: "\<not> Set_has 9 (listeners (snd (?u1 ?st2)))"
    by blast
  have "\<not> Set_has 9 (listeners sample_store)"
    by (simp add: Set_has_def sample_store_entries)
  then have "snd (unsubscribe 9 ?st1) = sample_store"
    by (rule unsubscribe_subscribe)
  moreover have "?u2 = unsubscribe 9"
    by (simp add: subscribe_def)
  ultimately have "snd (?u2 ?st2) = sample_store"
    by (simp only: same)
  then have "fst (snd (main_state sample_updaters quiet [Num 1] (snd (?u2 ?st2)))) = [7, 5]"
    by (simp add: main_state_def set_branch_def notify_quiet sample_store_entries)
  with same run once gone show ?thesis
    by blast
qed

section \<open>Lazy construction, once\<close>

text \<open>
  Claim C6. When the generator returns \<open>v\<close> on its first call (\<open>v\<close> may be
  \<^verbatim>\<open>undefined\<close>), any number \<open>n \<ge> 1\<close> of renders of one component instance all return
  \<open>v\<close>, and afterwards the generator has been called once: its effect on the world is
  that of the first call alone.
\<close>

theorem useKeeper_generates_once:
  assumes "keeperGen w = (Inr v, w')" and "0 < n"
  shows "renders keeperGen n (mount w)
         = (replicate n (Returned v), \<lparr>keeper = Current v, world = w', generated = 1\<rparr>)"
proof -
  from assms(2) obtain m where n: "n = Suc m"
    by (cases n) auto
  have "renders keeperGen m \<lparr>keeper = Current v, world = w', generated = 1\<rparr>
        = (replicate m (Returned v), \<lparr>keeper = Current v, world = w', generated = 1\<rparr>)"
    by (rule renders_current) simp
  with useKeeper_first [of keeperGen w v w', OF assms(1)] show ?thesis
    by (simp add: n)
qed

theorem useKeeper_generates_once_witness:
  "counting_generator 0 = (Inr Undefined, 1) \<and> (0::nat) < 3
   \<and> renders counting_generator 3 (mount 0)
       = ([Returned Undefined, Returned Undefined, Returned Undefined],
          \<lparr>keeper = Current Undefined, world = 1, generated = 1\<rparr>)"
proof -
  have g: "counting_generator 0 = (Inr Undefined, 1)"
    by (simp add: counting_generator_def)
  have n: "(0::nat) < 3"
    by simp
  from useKeeper_generates_once [of counting_generator 0 Undefined 1 3, OF g n] g n show ?thesis
    by (simp add: numeral_3_eq_3)
qed

section \<open>Extending a store\<close>

text \<open>
  Claim C9, as the code has it. For a store and a methods object none of whose names is
  \<^verbatim>\<open>name\<close>, \<^verbatim>\<open>length\<close>, \<^verbatim>\<open>caller\<close>, \<^verbatim>\<open>arguments\<close> or \<^verbatim>\<open>__proto__\<close>, \<^verbatim>\<open>assign\<close> returns the
  reference it was called on; the store at that reference has every method of the object
  as a property, its other properties, its value and its listeners being as before. And
  \<^verbatim>\<open>keep(v, k)\<close> is \<^verbatim>\<open>keep(v)\<close> followed by \<^verbatim>\<open>assign(k)\<close> on the store it returned, for
  every object \<open>k\<close>.
\<close>

theorem assign_extends_in_place:
  assumes "objs h s = Some st" and "plain_props st"
    and "distinct (map fst m)" and "fst ` set m \<inter> reserved = {}"
  shows "(\<exists>st'. assign s m h = (Returned s, h\<lparr>objs := (objs h)(s \<mapsto> st')\<rparr>)
           \<and> (\<forall>(key, v) \<in> set m. props st' key = Some (Data v, True))
           \<and> (\<forall>key. key \<notin> fst ` set m \<longrightarrow> props st' key = props st key)
           \<and> initialState st' = initialState st \<and> listeners st' = listeners st)
       \<and> (\<exists>r h0. main_keep v None h = (Returned r, h0)
           \<and> main_keep v (Some k) h = assign r k h0)"
proof -
  from Object_assign_plain [OF assms(2-4)] obtain st' where
    "Object_assign st m = (None, st')"
    and "\<forall>(key, v) \<in> set m. props st' key = Some (Data v, True)"
    and "\<forall>key. key \<notin> fst ` set m \<longrightarrow> props st' key = props st key"
    and "initialState st' = initialState st" "listeners st' = listeners st"
    by blast
  with assms(1) have first: "\<exists>st'. assign s m h = (Returned s, h\<lparr>objs := (objs h)(s \<mapsto> st')\<rparr>)
           \<and> (\<forall>(key, v) \<in> set m. props st' key = Some (Data v, True))
           \<and> (\<forall>key. key \<notin> fst ` set m \<longrightarrow> props st' key = props st key)
           \<and> initialState st' = initialState st \<and> listeners st' = listeners st"
    by (auto simp: assign_def)
  have "\<exists>r h0. main_keep v None h = (Returned r, h0) \<and> main_keep v (Some k) h = assign r k h0"
    by (simp add: main_keep_None main_keep_Some)
  with first show ?thesis
    by blast
qed

theorem assign_extends_in_place_witness:
  "objs counter_heap 0 = Some (new_store (Num 0) main_props)
   \<and> plain_props (new_store (Num 0) main_props)
   \<and> distinct (map fst counter_methods)
   \<and> fst ` set counter_methods \<inter> reserved = {}
   \<and> (\<exists>st'. assign 0 counter_methods counter_heap
               = (Returned 0, counter_heap\<lparr>objs := (objs counter_heap)(0 \<mapsto> st')\<rparr>)
          \<and> props st' ''increment'' = Some (Data (Fun 0), True)
          \<and> props st' ''reset'' = Some (Data (Fun 2), True)
          \<and> props st' ''subscribe'' = Some (SubscribeFn, True)
          \<and> initialState st' = Num 0)
   \<and> main_keep (Num 5) (Some counter_methods) counter_heap
       = assign 1 counter_methods (snd (main_keep (Num 5) None counter_heap))"
proof -
  have h: "objs counter_heap 0 = Some (new_store (Num 0) main_props)"
    by (simp add: counter_heap_def main_keep_None empty_heap_def)
  have p: "plain_props (new_store (Num 0) main_props)"
    by (rule plain_props_main)
  have d: "distinct (map fst counter_methods)"
    by (simp add: counter_methods_def)
  have r: "fst ` set counter_methods \<inter> reserved = {}"
    by (simp add: counter_methods_def reserved_def)
  from assign_extends_in_place
    [where v = "Num 5" and k = counter_methods and h = counter_heap, OF h p d r]
  obtain st' where a: "assign 0 counter_methods counter_heap
               = (Returned 0, counter_heap\<lparr>objs := (objs counter_heap)(0 \<mapsto> st')\<rparr>)"
    and there: "\<forall>(key, v) \<in> set counter_methods. props st' key = Some (Data v, True)"
    and rest: "\<forall>key. key \<notin> fst ` set counter_methods
                 \<longrightarrow> props st' key = props (new_store (Num 0) main_props) key"
    and val: "initialState st' = initialState (new_store (Num 0) main_props)"
    and k: "\<exists>r h0. main_keep (Num 5) None counter_heap = (Returned r, h0)
           \<and> main_keep (Num 5) (Some counter_methods) counter_heap = assign r counter_methods h0"
    by blast
  from there have "props st' ''increment'' = Some (Data (Fun 0), True)"
    and "props st' ''reset'' = Some (Data (Fun 2), True)"
    by (simp_all add: counter_methods_def)
  moreover from rest have "props st' ''subscribe'' = Some (SubscribeFn, True)"
    by (simp add: counter_methods_def new_store_def main_props_def)
  moreover from val have "initialState st' = Num 0"
    by (simp add: new_store_def)
  moreover from k have "main_keep (Num 5) (Some counter_methods) counter_heap
      = assign 1 counter_methods (snd (main_keep (Num 5) None counter_heap))"
    by (auto simp: main_keep_None counter_heap_def empty_heap_def)
  ultimately show ?thesis
    using h p d r a by blast
qed


text \<open>
  The claim as it was stated, for every methods object, fails at \<^verbatim>\<open>{ name: f }\<close>: the
  \<^verbatim>\<open>name\<close> of a function object is read-only, so \<^verbatim>\<open>Object.assign\<close> throws a \<open>TypeError\<close>,
  from \<^verbatim>\<open>assign\<close> and from \<^verbatim>\<open>keep\<close> alike.
\<close>

theorem assign_readonly_counterexample:
  "objs (snd (main_keep (Num 0) None empty_heap)) 0 = Some (new_store (Num 0) main_props)
   \<and> assign 0 [(''name'', Fun 7)] (snd (main_keep (Num 0) None empty_heap))
       = (Threw TypeError, snd (main_keep (Num 0) None empty_heap))
   \<and> main_keep (Num 0) (Some [(''name'', Fun 7)]) empty_heap
       = (Threw TypeError, snd (main_keep (Num 0) None empty_heap))"
  by (simp add: main_keep_def alloc_def empty_heap_def assign_def Set_property_def
      new_store_def main_props_def)

section \<open>A call with the argument \<^verbatim>\<open>undefined\<close>\<close>

text \<open>
  Claim C1: a call with one explicit argument, also \<^verbatim>\<open>undefined\<close>, \<^verbatim>\<open>null\<close>, \<^verbatim>\<open>0\<close>,
  \<^verbatim>\<open>false\<close> or the empty string, is a set to that value and notifies every listener.
  In \<^verbatim>\<open>src/main.ts\<close> the call \<^verbatim>\<open>s(undefined)\<close> on a store holding \<open>3\<close> is a get: it
  returns \<open>3\<close>, changes nothing and invokes no listener, because the default
  initialiser replaces an \<^verbatim>\<open>undefined\<close> argument by the sentinel. \<^verbatim>\<open>state\<close> of \<^verbatim>\<open>src/keep.ts\<close>,
  which tests \<^verbatim>\<open>arguments.length\<close>, sets the value and notifies both listeners.
\<close>

theorem main_state_undefined_is_get:
  "main_state sample_updaters quiet [Undefined] sample_store = (Returned (Num 3), [], sample_store)
   \<and> keep_state sample_updaters quiet [Undefined] sample_store
       = (Returned Undefined, [7, 5], sample_store\<lparr>initialState := Undefined\<rparr>)"
  by (simp add: main_state_def keep_state_def set_branch_def notify_quiet sample_store_entries
      sample_store_value)

text \<open>
  Claim C4: after \<^verbatim>\<open>s(v)\<close> for a value \<open>v\<close> that is not a function, \<^verbatim>\<open>s()\<close> is \<open>v\<close>. In
  \<^verbatim>\<open>src/main.ts\<close>, after \<^verbatim>\<open>s(undefined)\<close> on a store holding \<open>3\<close>, \<^verbatim>\<open>s()\<close> is still \<open>3\<close>.
  (For every other value that is not a function, and for updaters, see
  \<open>main_state_literal_set\<close>, \<open>main_state_updater_set\<close> and \<open>main_keep_get\<close>.)
\<close>

theorem main_state_set_undefined_then_get:
  "fst (main_state sample_updaters quiet []
         (snd (snd (main_state sample_updaters quiet [Undefined] sample_store))))
     = Returned (Num 3)"
  by (simp add: main_state_def sample_store_value)

text \<open>
  Claim C10: a call with one argument notifies every listener also when the new value
  is the old one. In \<^verbatim>\<open>src/main.ts\<close>, a store is set to \<^verbatim>\<open>undefined\<close> by the updater
  \<^verbatim>\<open>() => undefined\<close> (both listeners are invoked); on that store \<^verbatim>\<open>s(undefined)\<close> invokes
  no listener, while the updater \<^verbatim>\<open>v => v\<close>, which also leaves the value as it is,
  invokes both.
\<close>

theorem main_state_undefined_unchanged_no_notify:
  "main_state sample_updaters quiet [Fun 2] sample_store
     = (Returned Undefined, [7, 5], sample_store\<lparr>initialState := Undefined\<rparr>)
   \<and> main_state sample_updaters quiet [Undefined] (sample_store\<lparr>initialState := Undefined\<rparr>)
     = (Returned Undefined, [], sample_store\<lparr>initialState := Undefined\<rparr>)
   \<and> main_state sample_updaters quiet [Fun 3] (sample_store\<lparr>initialState := Undefined\<rparr>)
     = (Returned Undefined, [7, 5], sample_store\<lparr>initialState := Undefined\<rparr>)"
  by (simp add: main_state_def set_branch_def notify_quiet sample_store_entries
      sample_updaters_def)

text \<open>
  Claim C5: one successful set call invokes each of the subscribed listeners once. In
  \<^verbatim>\<open>src/main.ts\<close> the call \<^verbatim>\<open>s(undefined)\<close> on a store with the listeners \<open>7\<close> and \<open>5\<close>
  returns normally and has invoked neither of them; \<^verbatim>\<open>state\<close> of \<^verbatim>\<open>src/keep.ts\<close> invokes
  each once.
\<close>

theorem undefined_call_skips_listeners:
  "entries (listeners sample_store) = [7, 5]
   \<and> fst (main_state sample_updaters quiet [Undefined] sample_store) = Returned (Num 3)
   \<and> count_list (fst (snd (main_state sample_updaters quiet [Undefined] sample_store))) 7 = 0
   \<and> count_list (fst (snd (main_state sample_updaters quiet [Undefined] sample_store))) 5 = 0
   \<and> count_list (fst (snd (keep_state sample_updaters quiet [Undefined] sample_store))) 7 = 1
   \<and> count_list (fst (snd (keep_state sample_updaters quiet [Undefined] sample_store))) 5 = 1"
  by (simp add: main_state_def keep_state_def set_branch_def notify_quiet sample_store_entries
      sample_store_value)

text \<open>
  Claim C7: after the unsubscribe function for \<open>L\<close> has run, a set does not invoke \<open>L\<close>
  and invokes the other listeners still subscribed; a further call of the function does
  not throw and affects no other listener. In \<^verbatim>\<open>src/main.ts\<close>, with the listeners \<open>7\<close>,
  \<open>5\<close> and \<open>9\<close> subscribed and \<open>9\<close> then unsubscribed, the call \<^verbatim>\<open>s(undefined)\<close> returns
  normally and has invoked neither \<open>7\<close> nor \<open>5\<close>, which are still subscribed.
\<close>

theorem undefined_call_after_unsubscribe:
  "entries (listeners (snd (fst (subscribe 9 sample_store) (snd (subscribe 9 sample_store)))))
     = [7, 5]
   \<and> main_state sample_updaters quiet [Undefined]
         (snd (fst (subscribe 9 sample_store) (snd (subscribe 9 sample_store))))
     = (Returned (Num 3), [],
         snd (fst (subscribe 9 sample_store) (snd (subscribe 9 sample_store))))"
proof -
  have "\<not> Set_has 9 (listeners sample_store)"
    by (simp add: Set_has_def sample_store_entries)
  then have "snd (unsubscribe 9 (snd (subscribe 9 sample_store))) = sample_store"
    by (rule unsubscribe_subscribe)
  then have "snd (fst (subscribe 9 sample_store) (snd (subscribe 9 sample_store))) = sample_store"
    by (simp add: subscribe_def)
  then show ?thesis
    by (simp add: main_state_def sample_store_entries sample_store_value)
qed

text \<open>
  Claim C8: after subscribing \<open>L\<close> twice, one set call invokes \<open>L\<close> once, and either
  unsubscribe function removes it. In \<^verbatim>\<open>src/main.ts\<close>, with \<open>9\<close> subscribed twice, the call
  \<^verbatim>\<open>s(undefined)\<close> returns normally and has invoked \<open>9\<close> not at all.
\<close>

theorem undefined_call_after_subscribing_twice:
  "Set_has 9 (listeners (snd (subscribe 9 (snd (subscribe 9 sample_store)))))
   \<and> fst (main_state sample_updaters quiet [Undefined]
           (snd (subscribe 9 (snd (subscribe 9 sample_store))))) = Returned (Num 3)
   \<and> count_list (fst (snd (main_state sample_updaters quiet [Undefined]
           (snd (subscribe 9 (snd (subscribe 9 sample_store))))))) 9 = 0"
  by (simp add: main_state_def subscribe_def jsset_simps sample_store_value)

section \<open>The first render of \<^verbatim>\<open>usePeek\<close>\<close>

text \<open>
  Claim C2: on the first render \<^verbatim>\<open>usePeek(v, ext)\<close> returns the value and a store that
  has the methods \<^verbatim>\<open>ext\<close> returns. In \<^verbatim>\<open>src/usePeek.ts\<close> the extension is never called:
  for the initial value \<open>0\<close> and the extension \<^verbatim>\<open>store => ({ increment: ... })\<close> the hook
  returns \<open>0\<close> and the bare store of \<^verbatim>\<open>src/keep.ts\<close>, which has no property
  \<^verbatim>\<open>increment\<close>.
\<close>

theorem usePeek_drops_extension:
  "fst (usePeek sample_updaters quiet (Num 0) counter_extension None empty_heap)
     = (Returned (Num 0), 0)
   \<and> objs (snd (snd (usePeek sample_updaters quiet (Num 0) counter_extension None empty_heap))) 0
     = Some (new_store (Num 0) keep_props)
   \<and> props (new_store (Num 0) keep_props) ''increment'' = None
   \<and> counter_extension 0 = [(''increment'', Fun 0)]"
  by (simp add: usePeek_def init_result empty_heap_def new_store_def keep_props_def
      counter_extension_def)


end
